theory Spec2Isabelle
  imports Complex_Main "HOL-Library.Multiset" "HOL-Library.Monad_Syntax"
begin

section \<open>Go's \<open>int\<close>\<close>

text \<open>
  Go's \<open>int\<close> is taken at 64 bits (amd64, arm64). A value is an \<open>int\<close> of HOL; every
  arithmetic operation of the source wraps its result around into the range
  \<open>-2^63 ..< 2^63\<close>, as the machine does. \<open>/\<close> truncates towards zero.
\<close>

definition wrap64 :: "int \<Rightarrow> int" where
  "wrap64 i = (i + 2 ^ 63) mod 2 ^ 64 - 2 ^ 63"

definition is_int64 :: "int \<Rightarrow> bool" where
  "is_int64 i \<longleftrightarrow> - (2 ^ 63) \<le> i \<and> i < 2 ^ 63"

definition add64 :: "int \<Rightarrow> int \<Rightarrow> int" where
  "add64 a b = wrap64 (a + b)"

definition sub64 :: "int \<Rightarrow> int \<Rightarrow> int" where
  "sub64 a b = wrap64 (a - b)"

definition neg64 :: "int \<Rightarrow> int" where
  "neg64 a = wrap64 (- a)"

definition quo64 :: "int \<Rightarrow> int \<Rightarrow> int" where
  "quo64 a b = wrap64 (sgn a * sgn b * (\<bar>a\<bar> div \<bar>b\<bar>))"

section \<open>Points and rectangles (package \<open>image\<close>)\<close>

record Point =
  X :: int
  Y :: int

record Rectangle =
  Min_pt :: Point
  Max_pt :: Point

text \<open>\<open>image.Rect\<close> swaps the coordinates of an axis given in the wrong order.\<close>

definition Rect :: "int \<Rightarrow> int \<Rightarrow> int \<Rightarrow> int \<Rightarrow> Rectangle" where
  "Rect x0 y0 x1 y1 =
     (let (x0, x1) = (if x0 > x1 then (x1, x0) else (x0, x1));
          (y0, y1) = (if y0 > y1 then (y1, y0) else (y0, y1))
      in \<lparr>Min_pt = \<lparr>X = x0, Y = y0\<rparr>, Max_pt = \<lparr>X = x1, Y = y1\<rparr>\<rparr>)"

definition Dx :: "Rectangle \<Rightarrow> int" where
  "Dx r = sub64 (X (Max_pt r)) (X (Min_pt r))"

definition Dy :: "Rectangle \<Rightarrow> int" where
  "Dy r = sub64 (Y (Max_pt r)) (Y (Min_pt r))"

section \<open>Floating point\<close>

text \<open>
  The source computes the projection and the ratio of the crop in \<open>float64\<close>. The
  operations it uses are parameters of the model: a value of \<open>'f Float64\<close> gives
  the conversions \<open>float64(i)\<close> and \<open>int(f)\<close>, the four arithmetic operations,
  \<open>math.Log\<close>, \<open>math.Tan\<close>, \<open>math.Round\<close> and the constants the compiler folds
  (\<open>math.Pi\<close>, \<open>math.Pi / 4\<close>, \<open>2 * math.Pi\<close>). A theorem that holds for every such
  value holds for the arithmetic of the machine. \<open>int(f)\<close> yields an \<open>int\<close> of Go
  whatever \<open>f\<close> is, so the model wraps it.
\<close>

record 'f Float64 =
  float64 :: "int \<Rightarrow> 'f"
  toInt :: "'f \<Rightarrow> int"
  f_add :: "'f \<Rightarrow> 'f \<Rightarrow> 'f"
  f_sub :: "'f \<Rightarrow> 'f \<Rightarrow> 'f"
  f_mul :: "'f \<Rightarrow> 'f \<Rightarrow> 'f"
  f_div :: "'f \<Rightarrow> 'f \<Rightarrow> 'f"
  math_Log :: "'f \<Rightarrow> 'f"
  math_Tan :: "'f \<Rightarrow> 'f"
  math_Round :: "'f \<Rightarrow> 'f"
  math_Pi :: "'f"
  math_Pi_div_4 :: "'f"
  math_Pi_times_2 :: "'f"

definition int_of :: "'f Float64 \<Rightarrow> 'f \<Rightarrow> int" where
  "int_of fl x = wrap64 (toInt fl x)"

text \<open>
  Arithmetic without rounding, on the reals: the instance at which closed theorems
  evaluate the model. \<open>int(f)\<close> truncates towards zero, \<open>math.Round\<close> rounds half
  away from zero.
\<close>

definition exact :: "real Float64" where
  "exact = \<lparr>float64 = of_int,
            toInt = (\<lambda>x. if 0 \<le> x then \<lfloor>x\<rfloor> else \<lceil>x\<rceil>),
            f_add = (+), f_sub = (-), f_mul = (*), f_div = (/),
            math_Log = ln, math_Tan = tan,
            math_Round = (\<lambda>x. if 0 \<le> x then of_int \<lfloor>x + 1 / 2\<rfloor> else of_int \<lceil>x - 1 / 2\<rceil>),
            math_Pi = pi, math_Pi_div_4 = pi / 4, math_Pi_times_2 = 2 * pi\<rparr>"

text \<open>
  \<open>float64\<close> itself, on the finite values away from overflow and underflow: each
  operation is the exact one followed by the rounding to the nearest value of 53
  significant bits, ties to the even one. \<open>math.Round\<close> and \<open>int(f)\<close> are exact.
  \<open>math.Log\<close> and \<open>math.Tan\<close> are taken correctly rounded; no theorem evaluates
  them at this instance.
\<close>

definition round_even :: "real \<Rightarrow> int" where
  "round_even x =
     (let f = \<lfloor>x\<rfloor>
      in if x - of_int f < 1 / 2 then f
         else if 1 / 2 < x - of_int f then f + 1
         else if even f then f else f + 1)"

definition round64 :: "real \<Rightarrow> real" where
  "round64 x =
     (if x = 0 then 0
      else (let u = 2 powr (of_int \<lfloor>log 2 \<bar>x\<bar>\<rfloor> - 52)
            in of_int (round_even (x / u)) * u))"

definition binary64 :: "real Float64" where
  "binary64 =
     \<lparr>float64 = (\<lambda>i. round64 (of_int i)),
      toInt = (\<lambda>x. if 0 \<le> x then \<lfloor>x\<rfloor> else \<lceil>x\<rceil>),
      f_add = (\<lambda>a b. round64 (a + b)), f_sub = (\<lambda>a b. round64 (a - b)),
      f_mul = (\<lambda>a b. round64 (a * b)), f_div = (\<lambda>a b. round64 (a / b)),
      math_Log = (\<lambda>x. round64 (ln x)), math_Tan = (\<lambda>x. round64 (tan x)),
      math_Round = (\<lambda>x. if 0 \<le> x then of_int \<lfloor>x + 1 / 2\<rfloor> else of_int \<lceil>x - 1 / 2\<rceil>),
      math_Pi = round64 pi, math_Pi_div_4 = round64 (pi / 4), math_Pi_times_2 = round64 (2 * pi)\<rparr>"


section \<open>Coordinates and the Mercator projection\<close>

record 'f Coord =
  Lat :: 'f
  Long :: 'f

definition mercatorProjection_latRad :: "'f Float64 \<Rightarrow> 'f \<Rightarrow> 'f" where
  "mercatorProjection_latRad fl lat = f_div fl (f_mul fl lat (math_Pi fl)) (float64 fl 180)"

definition mercatorProjection_n :: "'f Float64 \<Rightarrow> 'f \<Rightarrow> 'f" where
  "mercatorProjection_n fl lat =
     math_Log fl (math_Tan fl (f_add fl (math_Pi_div_4 fl)
       (f_div fl (mercatorProjection_latRad fl lat) (float64 fl 2))))"

definition mercatorProjection_Convert :: "'f Float64 \<Rightarrow> 'f Coord \<Rightarrow> int \<Rightarrow> int \<Rightarrow> Point" where
  "mercatorProjection_Convert fl c mapWidth mapHeight =
     (let mw = float64 fl mapWidth;
          mh = float64 fl mapHeight;
          fx = f_mul fl (f_add fl (Long c) (float64 fl 180)) (f_div fl mw (float64 fl 360));
          fy = f_sub fl (f_div fl mh (float64 fl 2))
                 (f_div fl (f_mul fl mw (mercatorProjection_n fl (Lat c))) (math_Pi_times_2 fl))
      in \<lparr>X = int_of fl (math_Round fl fx), Y = int_of fl (math_Round fl fy)\<rparr>)"


text \<open>
  The formulas of the spec for the same projection (section 4.1), each operation
  read as one operation of \<open>float64\<close>, from left to right: the product
  \<open>(longitude + 180) * mapWidth\<close> comes before the division by 360.
\<close>

definition spec_Convert :: "'f Float64 \<Rightarrow> 'f Coord \<Rightarrow> int \<Rightarrow> int \<Rightarrow> Point" where
  "spec_Convert fl c mapWidth mapHeight =
     (let latRad = f_div fl (f_mul fl (Lat c) (math_Pi fl)) (float64 fl 180);
          n = math_Log fl (math_Tan fl (f_add fl (math_Pi_div_4 fl) (f_div fl latRad (float64 fl 2))));
          x = math_Round fl
                (f_div fl (f_mul fl (f_add fl (Long c) (float64 fl 180)) (float64 fl mapWidth))
                          (float64 fl 360));
          y = math_Round fl
                (f_sub fl (f_div fl (float64 fl mapHeight) (float64 fl 2))
                          (f_div fl (f_mul fl (float64 fl mapWidth) n) (math_Pi_times_2 fl)))
      in \<lparr>X = int_of fl x, Y = int_of fl y\<rparr>)"

text \<open>
  Another projection, for an example: the equirectangular one, with x as in
  Mercator and y linear in the latitude.
\<close>

definition plateCarree :: "'f Float64 \<Rightarrow> 'f Coord \<Rightarrow> int \<Rightarrow> int \<Rightarrow> Point" where
  "plateCarree fl c mapWidth mapHeight =
     \<lparr>X = int_of fl (math_Round fl
            (f_mul fl (f_add fl (Long c) (float64 fl 180))
                      (f_div fl (float64 fl mapWidth) (float64 fl 360)))),
      Y = int_of fl (math_Round fl
            (f_mul fl (f_sub fl (float64 fl 90) (Lat c))
                      (f_div fl (float64 fl mapHeight) (float64 fl 180))))\<rparr>"

section \<open>The crop\<close>

record CropOption =
  Bound :: int
  MinWidth :: int
  MinHeight :: int
  PreserveRatio :: bool

text \<open>
  The loop "Calculate min&max values" of \<open>MapPinsProjection\<close>, on the four locals
  \<open>(minX, minY, maxX, maxY)\<close>.
\<close>

definition minmax_step :: "int \<times> int \<times> int \<times> int \<Rightarrow> Point \<Rightarrow> int \<times> int \<times> int \<times> int" where
  "minmax_step b c =
     (let (minX, minY, maxX, maxY) = b;
          minX = (if X c < minX then X c else minX);
          maxX = (if X c > maxX then X c else maxX);
          minY = (if Y c < minY then Y c else minY);
          maxY = (if Y c > maxY then Y c else maxY)
      in (minX, minY, maxX, maxY))"

definition minmax :: "int \<Rightarrow> int \<Rightarrow> Point list \<Rightarrow> int \<times> int \<times> int \<times> int" where
  "minmax mapWidth mapHeight cs = foldl minmax_step (mapWidth, mapHeight, 0, 0) cs"

text \<open>
  The minimum height the crop uses: \<open>MinHeight\<close>, raised to
  \<open>int((float64(MinHeight) / float64(MinWidth)) * float64(w))\<close> when \<open>PreserveRatio\<close>
  is set.
\<close>

definition minHeight_of :: "'f Float64 \<Rightarrow> CropOption \<Rightarrow> int \<Rightarrow> int" where
  "minHeight_of fl crop w =
     (let minHeight = 0;
          minHeight = (if PreserveRatio crop
                       then int_of fl (f_mul fl (f_div fl (float64 fl (MinHeight crop))
                                                          (float64 fl (MinWidth crop)))
                                                (float64 fl w))
                       else minHeight);
          minHeight = (if minHeight < MinHeight crop then MinHeight crop else minHeight)
      in minHeight)"

text \<open>
  "Calculate bounds" to the end of \<open>MapPinsProjection\<close>: the margin with its clamps,
  the expansion to the minimum width, the expansion to the minimum height. The
  fourth clamp of the margin assigns to \<open>maxX\<close>, as the source does.
\<close>

definition cropBounds ::
  "'f Float64 \<Rightarrow> CropOption \<Rightarrow> int \<Rightarrow> int \<Rightarrow> int \<times> int \<times> int \<times> int \<Rightarrow> int \<times> int \<times> int \<times> int" where
  "cropBounds fl crop mapWidth mapHeight b =
     (let (minX, minY, maxX, maxY) = b;
          minX = sub64 minX (Bound crop);
          minX = (if minX < 0 then 0 else minX);
          minY = sub64 minY (Bound crop);
          minY = (if minY < 0 then 0 else minY);
          maxX = add64 maxX (Bound crop);
          maxX = (if maxX > mapWidth then mapWidth else maxX);
          maxY = add64 maxY (Bound crop);
          maxX = (if maxY > mapHeight then mapHeight else maxX);
          w = sub64 maxX minX;
          (minX, maxX) =
            (if w < MinWidth crop then
               (let minX = sub64 minX (quo64 (sub64 (MinWidth crop) w) 2);
                    add = 0;
                    (add, minX) = (if minX < 0 then (neg64 minX, 0) else (add, minX));
                    maxX = add64 maxX (add64 (quo64 (sub64 (MinWidth crop) w) 2) add);
                    maxX = (if maxX > mapWidth then mapWidth else maxX)
                in (minX, maxX))
             else (minX, maxX));
          w = sub64 maxX minX;
          minHeight = minHeight_of fl crop w;
          h = sub64 maxY minY;
          (minY, maxY) =
            (if h < minHeight then
               (let minY = sub64 minY (quo64 (sub64 minHeight h) 2);
                    add = 0;
                    (add, minY) = (if minY < 0 then (neg64 minY, 0) else (add, minY));
                    maxY = add64 maxY (add64 (quo64 (sub64 minHeight h) 2) add);
                    maxY = (if maxY > mapHeight then mapHeight else maxY)
                in (minY, maxY))
             else (minY, maxY))
      in (minX, minY, maxX, maxY))"

definition cropRect :: "int \<times> int \<times> int \<times> int \<Rightarrow> Rectangle" where
  "cropRect b = (let (minX, minY, maxX, maxY) = b in Rect minX minY maxX maxY)"

text \<open>
  The stages of \<open>cropBounds\<close>, named for the proofs: the margin with its four
  clamps, and the expansion, which the source writes out once for the width and once
  for the height. Lemma \<open>cropBounds_stages\<close> shows \<open>cropBounds\<close> to be their
  composition.
\<close>

definition clampMargin :: "CropOption \<Rightarrow> int \<Rightarrow> int \<Rightarrow> int \<times> int \<times> int \<times> int \<Rightarrow> int \<times> int \<times> int \<times> int" where
  "clampMargin crop mapWidth mapHeight b =
     (let (minX, minY, maxX, maxY) = b;
          minX = sub64 minX (Bound crop);
          minX = (if minX < 0 then 0 else minX);
          minY = sub64 minY (Bound crop);
          minY = (if minY < 0 then 0 else minY);
          maxX = add64 maxX (Bound crop);
          maxX = (if maxX > mapWidth then mapWidth else maxX);
          maxY = add64 maxY (Bound crop);
          maxX = (if maxY > mapHeight then mapHeight else maxX)
      in (minX, minY, maxX, maxY))"

definition widen :: "int \<Rightarrow> int \<Rightarrow> int \<Rightarrow> int \<Rightarrow> int \<times> int" where
  "widen lo hi least limit =
     (if sub64 hi lo < least then
        (let d = quo64 (sub64 least (sub64 hi lo)) 2;
             lo' = sub64 lo d;
             hi' = add64 hi (add64 d (if lo' < 0 then neg64 lo' else 0))
         in (if lo' < 0 then 0 else lo', if hi' > limit then limit else hi'))
      else (lo, hi))"

section \<open>The heap\<close>

text \<open>
  \<open>MapPinsProjection\<close> works on objects it shares with its caller: the backing
  array of \<open>coords\<close>, the images behind \<open>worldMap\<close> and \<open>pinParts\<close>, and the two
  objects it allocates itself, the array of \<open>cs\<close> and the canvas \<open>m\<close>. The heap
  holds them by kind; a reference is an index, an allocation appends, and a
  reference beyond the heap is \<open>nil\<close>. The method call on a \<open>nil\<close> image and the
  write beyond a slice panic in Go: the model returns \<open>None\<close>.

  An image is its bounds, the pixels it was given (\<open>None\<close> for the zeroed buffer of
  \<open>image.NewRGBA\<close>), and the calls of \<open>draw.Draw\<close> made onto it since, oldest first:
  the compositing itself belongs to package \<open>image/draw\<close>.
\<close>

type_synonym ref = nat

datatype Op = Over | Src

record DrawCall =
  call_r :: Rectangle
  call_src :: ref
  call_sp :: Point
  call_op :: Op

record 'px Image =
  Bounds :: Rectangle
  Pix :: "'px option"
  Draws :: "DrawCall list"

record ('f, 'px) Heap =
  coordSlices :: "'f Coord list list"
  pointSlices :: "Point list list"
  images :: "'px Image list"

definition lookup :: "'a list \<Rightarrow> ref \<Rightarrow> 'a option" where
  "lookup xs a = (if a < length xs then Some (xs ! a) else None)"

text \<open>The elements of a slice; a \<open>nil\<close> slice has none.\<close>

definition slice_at :: "'a list list \<Rightarrow> ref \<Rightarrow> 'a list" where
  "slice_at xss a = (case lookup xss a of None \<Rightarrow> [] | Some xs \<Rightarrow> xs)"

text \<open>A loop whose body may panic.\<close>

fun foldM :: "('s \<Rightarrow> 'a \<Rightarrow> 's option) \<Rightarrow> 's \<Rightarrow> 'a list \<Rightarrow> 's option" where
  "foldM f s [] = Some s"
| "foldM f s (x # xs) = (case f s x of None \<Rightarrow> None | Some s' \<Rightarrow> foldM f s' xs)"

text \<open>\<open>make([]image.Point, n)\<close>: a new array of \<open>n\<close> zero points.\<close>

definition make_Points :: "('f, 'px) Heap \<Rightarrow> nat \<Rightarrow> ref \<times> ('f, 'px) Heap" where
  "make_Points \<sigma> n =
     (length (pointSlices \<sigma>),
      \<sigma>\<lparr>pointSlices := pointSlices \<sigma> @ [replicate n \<lparr>X = 0, Y = 0\<rparr>]\<rparr>)"

text \<open>\<open>cs[i] = p\<close>.\<close>

definition set_Point :: "('f, 'px) Heap \<Rightarrow> ref \<Rightarrow> nat \<Rightarrow> Point \<Rightarrow> ('f, 'px) Heap option" where
  "set_Point \<sigma> cs i p =
     (case lookup (pointSlices \<sigma>) cs of
        None \<Rightarrow> None
      | Some ps \<Rightarrow>
          if i < length ps
          then Some (\<sigma>\<lparr>pointSlices := (pointSlices \<sigma>)[cs := ps[i := p]]\<rparr>)
          else None)"

text \<open>
  \<open>sort.Slice(cs, less)\<close> sorts the array in place. The algorithm belongs to
  package \<open>sort\<close> and is a parameter: \<open>sortSlice lt xs\<close> is the order it leaves
  the elements \<open>xs\<close> in under the comparison \<open>lt\<close>. The source's \<open>less\<close> compares
  the elements at two indices; \<open>lt\<close> compares two elements.
\<close>

definition sort_Slice ::
  "((Point \<Rightarrow> Point \<Rightarrow> bool) \<Rightarrow> Point list \<Rightarrow> Point list) \<Rightarrow>
   ('f, 'px) Heap \<Rightarrow> ref \<Rightarrow> (Point \<Rightarrow> Point \<Rightarrow> bool) \<Rightarrow> ('f, 'px) Heap" where
  "sort_Slice sortSlice \<sigma> cs lt =
     \<sigma>\<lparr>pointSlices := (pointSlices \<sigma>)[cs := sortSlice lt (slice_at (pointSlices \<sigma>) cs)]\<rparr>"

text \<open>
  What package \<open>sort\<close> promises of \<open>sort.Slice\<close>: the same elements, none before
  one that is less. It does not promise to keep equal elements in their order.
\<close>

definition sorts :: "(('a \<Rightarrow> 'a \<Rightarrow> bool) \<Rightarrow> 'a list \<Rightarrow> 'a list) \<Rightarrow> ('a \<Rightarrow> 'a \<Rightarrow> bool) \<Rightarrow> bool" where
  "sorts sortSlice lt \<longleftrightarrow>
     (\<forall>xs. mset (sortSlice lt xs) = mset xs \<and>
           sorted_wrt (\<lambda>a b. \<not> lt b a) (sortSlice lt xs))"

text \<open>
  An insertion sort, as \<open>sort.Slice\<close> runs on the shortest slices: each element
  in turn moves left past the elements it is less than. \<open>racc\<close> is the part
  already sorted, last element first.
\<close>

fun moveLeft :: "('a \<Rightarrow> 'a \<Rightarrow> bool) \<Rightarrow> 'a \<Rightarrow> 'a list \<Rightarrow> 'a list" where
  "moveLeft lt x [] = [x]"
| "moveLeft lt x (p # racc) = (if lt x p then p # moveLeft lt x racc else x # p # racc)"

definition insertionSort :: "('a \<Rightarrow> 'a \<Rightarrow> bool) \<Rightarrow> 'a list \<Rightarrow> 'a list" where
  "insertionSort lt xs = rev (foldl (\<lambda>racc x. moveLeft lt x racc) [] xs)"

text \<open>
  \<open>image.NewRGBA(r)\<close>: a new image with bounds \<open>r\<close> and zeroed pixels. The
  allocation is taken to succeed.
\<close>

definition NewRGBA :: "('f, 'px) Heap \<Rightarrow> Rectangle \<Rightarrow> ref \<times> ('f, 'px) Heap" where
  "NewRGBA \<sigma> r =
     (length (images \<sigma>), \<sigma>\<lparr>images := images \<sigma> @ [\<lparr>Bounds = r, Pix = None, Draws = []\<rparr>]\<rparr>)"

text \<open>\<open>draw.Draw(dst, r, src, sp, op)\<close> changes \<open>dst\<close> and reads \<open>src\<close>.\<close>

definition Draw ::
  "('f, 'px) Heap \<Rightarrow> ref \<Rightarrow> Rectangle \<Rightarrow> ref \<Rightarrow> Point \<Rightarrow> Op \<Rightarrow> ('f, 'px) Heap option" where
  "Draw \<sigma> dst r src sp op =
     (case (lookup (images \<sigma>) dst, lookup (images \<sigma>) src) of
        (Some d, Some s) \<Rightarrow>
          Some (\<sigma>\<lparr>images := (images \<sigma>)[dst := d\<lparr>Draws := Draws d @
                  [\<lparr>call_r = r, call_src = src, call_sp = sp, call_op = op\<rparr>]\<rparr>]\<rparr>)
      | _ \<Rightarrow> None)"

section \<open>\<open>MapPinsProjection\<close>\<close>

text \<open>The call of \<open>draw.Draw\<close> that puts the pin part \<open>pin\<close>, with bounds \<open>b\<close>, at the point \<open>c\<close>.\<close>

definition pinRect :: "Rectangle \<Rightarrow> Point \<Rightarrow> Rectangle" where
  "pinRect b c =
     (let halfw = quo64 (Dx b) 2;
          h = Dy b
      in Rect (sub64 (X c) halfw) (sub64 (Y c) h) (add64 (X c) halfw) (Y c))"

text \<open>The body of the loop over \<open>pinParts\<close>: one pin part, drawn at every point of \<open>cs\<close>.\<close>

definition drawPinPart :: "ref \<Rightarrow> ref \<Rightarrow> ('f, 'px) Heap \<Rightarrow> ref \<Rightarrow> ('f, 'px) Heap option" where
  "drawPinPart m cs \<sigma> pin =
     do {
       p \<leftarrow> lookup (images \<sigma>) pin;
       let sp = Min_pt (Bounds p);
       foldM (\<lambda>\<sigma> c. Draw \<sigma> m (pinRect (Bounds p) c) pin sp Over) \<sigma> (slice_at (pointSlices \<sigma>) cs)
     }"

text \<open>What \<open>MapPinsProjection\<close> returns: \<open>m\<close>, or \<open>m.SubImage(r)\<close>.\<close>

datatype Output = Whole ref | SubImage ref Rectangle

text \<open>
  \<open>proj\<close> is the method \<open>Convert\<close> of the projection, taken to compute its point
  from its arguments alone; \<open>crop\<close> is \<open>None\<close> for \<open>nil\<close>.
\<close>

definition MapPinsProjection ::
  "'f Float64 \<Rightarrow> ((Point \<Rightarrow> Point \<Rightarrow> bool) \<Rightarrow> Point list \<Rightarrow> Point list) \<Rightarrow>
   ('f Coord \<Rightarrow> int \<Rightarrow> int \<Rightarrow> Point) \<Rightarrow> ref \<Rightarrow> ref list \<Rightarrow> ref \<Rightarrow> CropOption option \<Rightarrow>
   ('f, 'px) Heap \<Rightarrow> (Output \<times> ('f, 'px) Heap) option" where
  "MapPinsProjection fl sortSlice proj worldMap pinParts coords crop \<sigma> =
     do {
       wm \<leftarrow> lookup (images \<sigma>) worldMap;
       let mapWidth = X (Max_pt (Bounds wm));
       let mapHeight = Y (Max_pt (Bounds wm));
       let (cs, \<sigma>) = make_Points \<sigma> (length (slice_at (coordSlices \<sigma>) coords));
       \<sigma> \<leftarrow> foldM (\<lambda>\<sigma> (i, c). set_Point \<sigma> cs i (proj c mapWidth mapHeight)) \<sigma>
              (enumerate 0 (slice_at (coordSlices \<sigma>) coords));
       let \<sigma> = sort_Slice sortSlice \<sigma> cs (\<lambda>a b. Y a < Y b);
       let (m, \<sigma>) = NewRGBA \<sigma> (Rect 0 0 (Dx (Bounds wm)) (Dy (Bounds wm)));
       mi \<leftarrow> lookup (images \<sigma>) m;
       \<sigma> \<leftarrow> Draw \<sigma> m (Bounds mi) worldMap (Min_pt (Bounds wm)) Over;
       \<sigma> \<leftarrow> foldM (drawPinPart m cs) \<sigma> pinParts;
       let b = minmax mapWidth mapHeight (slice_at (pointSlices \<sigma>) cs);
       (case crop of
          None \<Rightarrow> Some (Whole m, \<sigma>)
        | Some c \<Rightarrow> Some (SubImage m (cropRect (cropBounds fl c mapWidth mapHeight b)), \<sigma>))
     }"

definition MapPins ::
  "'f Float64 \<Rightarrow> ((Point \<Rightarrow> Point \<Rightarrow> bool) \<Rightarrow> Point list \<Rightarrow> Point list) \<Rightarrow>
   ref \<Rightarrow> ref list \<Rightarrow> ref \<Rightarrow> CropOption option \<Rightarrow>
   ('f, 'px) Heap \<Rightarrow> (Output \<times> ('f, 'px) Heap) option" where
  "MapPins fl sortSlice worldMap pinParts coords crop \<sigma> =
     MapPinsProjection fl sortSlice (mercatorProjection_Convert fl) worldMap pinParts coords crop \<sigma>"

section \<open>What a call leaves in the heap\<close>

text \<open>The heap after the calls \<open>ds\<close> of \<open>draw.Draw\<close> onto the image \<open>m\<close>.\<close>

definition appendDraws :: "('f, 'px) Heap \<Rightarrow> ref \<Rightarrow> DrawCall list \<Rightarrow> ('f, 'px) Heap" where
  "appendDraws \<sigma> m ds =
     \<sigma>\<lparr>images := (images \<sigma>)[m := (images \<sigma> ! m)\<lparr>Draws := Draws (images \<sigma> ! m) @ ds\<rparr>]\<rparr>"

text \<open>The call that draws the pin part \<open>pin\<close> at the point \<open>c\<close>.\<close>

definition pinCall :: "'px Image list \<Rightarrow> ref \<Rightarrow> Point \<Rightarrow> DrawCall" where
  "pinCall ims pin c =
     \<lparr>call_r = pinRect (Bounds (ims ! pin)) c, call_src = pin,
      call_sp = Min_pt (Bounds (ims ! pin)), call_op = Over\<rparr>"

text \<open>The canvas once the map and the pin parts are drawn at the points \<open>cs\<close>.\<close>

definition canvasOf :: "('f, 'px) Heap \<Rightarrow> ref \<Rightarrow> ref list \<Rightarrow> Point list \<Rightarrow> 'px Image" where
  "canvasOf \<sigma> worldMap pinParts cs =
     (let wm = images \<sigma> ! worldMap;
          r = Rect 0 0 (Dx (Bounds wm)) (Dy (Bounds wm))
      in \<lparr>Bounds = r, Pix = None,
          Draws = \<lparr>call_r = r, call_src = worldMap, call_sp = Min_pt (Bounds wm), call_op = Over\<rparr> #
                  concat (map (\<lambda>pin. map (pinCall (images \<sigma>) pin) cs) pinParts)\<rparr>)"

text \<open>\<open>\<sigma>'\<close> holds every object of \<open>\<sigma>\<close> unchanged, and perhaps new ones.\<close>

definition extends :: "('f, 'px) Heap \<Rightarrow> ('f, 'px) Heap \<Rightarrow> bool" where
  "extends \<sigma> \<sigma>' \<longleftrightarrow>
     coordSlices \<sigma>' = coordSlices \<sigma> \<and>
     take (length (pointSlices \<sigma>)) (pointSlices \<sigma>') = pointSlices \<sigma> \<and>
     take (length (images \<sigma>)) (images \<sigma>') = images \<sigma>"

section \<open>An example\<close>

text \<open>
  A map of 360 by 180 pixels, the two pin parts, and three slices of coordinates,
  all on the equator: two pins at longitudes 10 and -10, one pin at longitude 0,
  one pin at longitude 175.
\<close>

definition exampleHeap :: "(real, string) Heap" where
  "exampleHeap =
     \<lparr>coordSlices = [[\<lparr>Lat = 0, Long = 10\<rparr>, \<lparr>Lat = 0, Long = - 10\<rparr>],
                     [\<lparr>Lat = 0, Long = 0\<rparr>],
                     [\<lparr>Lat = 0, Long = 175\<rparr>]],
      pointSlices = [],
      images = [\<lparr>Bounds = Rect 0 0 360 180, Pix = Some ''mercator.jpg'', Draws = []\<rparr>,
                \<lparr>Bounds = Rect 0 0 10 6, Pix = Some ''pin-shadow.png'', Draws = []\<rparr>,
                \<lparr>Bounds = Rect 0 0 10 20, Pix = Some ''pin.png'', Draws = []\<rparr>]\<rparr>"

text \<open>
  The first slice projects to \<open>examplePoints\<close>, and a call on it with both pin parts
  leaves the heap \<open>exampleAfter\<close> (lemma \<open>example_run\<close>).
\<close>

definition examplePoints :: "Point list" where
  "examplePoints = [\<lparr>X = 190, Y = 90\<rparr>, \<lparr>X = 170, Y = 90\<rparr>]"

definition exampleAfter :: "(real, string) Heap" where
  "exampleAfter =
     exampleHeap\<lparr>pointSlices := [examplePoints],
                 images := images exampleHeap @ [canvasOf exampleHeap 0 [1, 2] examplePoints]\<rparr>"

text \<open>
  One pin in the south and one in the north, in this order, under the
  equirectangular projection: a call leaves the heap \<open>southNorthAfter\<close>, with the
  northern pin first in \<open>cs\<close> (lemma \<open>southNorth_run\<close>).
\<close>

definition southNorthHeap :: "(real, string) Heap" where
  "southNorthHeap =
     exampleHeap\<lparr>coordSlices := [[\<lparr>Lat = - 30, Long = 10\<rparr>, \<lparr>Lat = 30, Long = - 10\<rparr>]]\<rparr>"

definition southNorthAfter :: "(real, string) Heap" where
  "southNorthAfter =
     southNorthHeap\<lparr>pointSlices := [[\<lparr>X = 170, Y = 60\<rparr>, \<lparr>X = 190, Y = 120\<rparr>]],
       images := images southNorthHeap @
         [canvasOf southNorthHeap 0 [1, 2] [\<lparr>X = 170, Y = 60\<rparr>, \<lparr>X = 190, Y = 120\<rparr>]]\<rparr>"

section \<open>Arithmetic that does not wrap\<close>

lemma is_int64_num: "is_int64 i \<longleftrightarrow> -9223372036854775808 \<le> i \<and> i < 9223372036854775808"
  by (simp add: is_int64_def)

lemma wrap64_id: "is_int64 i \<Longrightarrow> wrap64 i = i"
  by (simp add: is_int64_def wrap64_def)

lemma wrap64_int64: "is_int64 (wrap64 i)"
  by (simp add: is_int64_def wrap64_def)

lemma add64_id: "is_int64 (a + b) \<Longrightarrow> add64 a b = a + b"
  by (simp add: add64_def wrap64_id)

lemma sub64_id: "is_int64 (a - b) \<Longrightarrow> sub64 a b = a - b"
  by (simp add: sub64_def wrap64_id)

lemma neg64_id: "is_int64 (- a) \<Longrightarrow> neg64 a = - a"
  by (simp add: neg64_def wrap64_id)

lemma add64_zero: "add64 0 0 = 0"
  by (simp add: add64_def wrap64_def)

lemma quo64_one: "quo64 1 2 = 0"
  by (simp add: quo64_def wrap64_def)

lemma quo64_two:
  assumes "0 \<le> a" and "is_int64 a"
  shows "quo64 a 2 = a div 2"
proof -
  from assms have "is_int64 (a div 2)"
    by (simp add: is_int64_def) linarith
  with assms show ?thesis
    by (cases "a = 0") (auto simp add: quo64_def wrap64_id)
qed

lemma minHeight_of_int64: "is_int64 (MinHeight crop) \<Longrightarrow> is_int64 (minHeight_of fl crop w)"
  by (simp add: minHeight_of_def int_of_def wrap64_int64 Let_def) (simp add: is_int64_def)

section \<open>The stages of the crop\<close>

lemma cropBounds_stages:
  "cropBounds fl crop mapWidth mapHeight b =
     (let (minX, minY, maxX, maxY) = clampMargin crop mapWidth mapHeight b;
          (minX, maxX) = widen minX maxX (MinWidth crop) mapWidth;
          (minY, maxY) = widen minY maxY (minHeight_of fl crop (sub64 maxX minX)) mapHeight
      in (minX, minY, maxX, maxY))"
  unfolding cropBounds_def clampMargin_def widen_def Let_def
  by (simp only: split_def fst_conv snd_conv if_distrib [of fst] if_distrib [of snd] if_True if_False refl split: if_splits)

lemma clampMargin_settled:
  assumes "Bound crop = 0" and "0 \<le> minX" "is_int64 minX" "0 \<le> minY" "is_int64 minY"
    and "maxX \<le> mapWidth" "is_int64 maxX" "maxY \<le> mapHeight" "is_int64 maxY"
  shows "clampMargin crop mapWidth mapHeight (minX, minY, maxX, maxY) = (minX, minY, maxX, maxY)"
  using assms by (simp add: clampMargin_def sub64_id add64_id)

lemma widen_settled:
  assumes "0 \<le> lo" "lo \<le> hi" "hi \<le> limit" "is_int64 limit" "least - 1 \<le> hi - lo"
  shows "widen lo hi least limit = (lo, hi)"
proof -
  have r: "is_int64 lo" "is_int64 hi" "is_int64 (hi - lo)"
    using assms by (auto simp add: is_int64_def)
  show ?thesis
  proof (cases "hi - lo < least")
    case True
    with assms have "least - (hi - lo) = 1" by simp
    then have d: "quo64 (sub64 least (hi - lo)) 2 = 0"
      by (simp add: sub64_def wrap64_def quo64_one)
    show ?thesis
      using assms r by (simp add: widen_def sub64_id add64_id add64_zero d)
  next
    case False
    then show ?thesis
      using r by (simp add: widen_def sub64_id)
  qed
qed

lemma cropBounds_settled:
  assumes bound: "Bound crop = 0"
    and types: "is_int64 mapWidth" "is_int64 mapHeight"
    and x: "0 \<le> minX" "minX \<le> maxX" "maxX \<le> mapWidth"
    and y: "0 \<le> minY" "minY \<le> maxY" "maxY \<le> mapHeight"
    and w: "MinWidth crop - 1 \<le> maxX - minX"
    and h: "minHeight_of fl crop (maxX - minX) - 1 \<le> maxY - minY"
  shows "cropBounds fl crop mapWidth mapHeight (minX, minY, maxX, maxY) = (minX, minY, maxX, maxY)"
proof -
  have r: "is_int64 minX" "is_int64 maxX" "is_int64 minY" "is_int64 maxY" "is_int64 (maxX - minX)"
    using types x y by (auto simp add: is_int64_def)
  have m: "clampMargin crop mapWidth mapHeight (minX, minY, maxX, maxY) = (minX, minY, maxX, maxY)"
    using bound x y r by (intro clampMargin_settled) simp_all
  have wx: "widen minX maxX (MinWidth crop) mapWidth = (minX, maxX)"
    using x types w by (intro widen_settled) simp_all
  have wy: "widen minY maxY (minHeight_of fl crop (maxX - minX)) mapHeight = (minY, maxY)"
    using y types h by (intro widen_settled) simp_all
  show ?thesis
    using r by (simp add: cropBounds_stages m wx wy sub64_id)
qed

section \<open>The insertion sort sorts\<close>

lemma moveLeft_mset: "mset (moveLeft lt x racc) = add_mset x (mset racc)"
  by (induction racc) auto

lemma moveLeft_set: "set (moveLeft lt x racc) = insert x (set racc)"
  by (induction racc) auto

lemma moveLeft_sorted:
  fixes f :: "'a \<Rightarrow> 'b::linorder"
  assumes "sorted_wrt (\<lambda>a b. f b \<le> f a) racc"
  shows "sorted_wrt (\<lambda>a b. f b \<le> f a) (moveLeft (\<lambda>a b. f a < f b) x racc)"
  using assms by (induction racc) (auto simp: moveLeft_set)

lemma foldl_moveLeft_mset: "mset (foldl (\<lambda>racc x. moveLeft lt x racc) acc xs) = mset acc + mset xs"
  by (induction xs arbitrary: acc) (auto simp: moveLeft_mset)

lemma foldl_moveLeft_sorted:
  fixes f :: "'a \<Rightarrow> 'b::linorder"
  assumes "sorted_wrt (\<lambda>a b. f b \<le> f a) acc"
  shows "sorted_wrt (\<lambda>a b. f b \<le> f a) (foldl (\<lambda>racc x. moveLeft (\<lambda>a b. f a < f b) x racc) acc xs)"
  using assms by (induction xs arbitrary: acc) (auto simp: moveLeft_sorted)

lemma insertionSort_sorts:
  fixes f :: "'a \<Rightarrow> 'b::linorder"
  shows "sorts insertionSort (\<lambda>a b. f a < f b)"
  unfolding sorts_def insertionSort_def
  using foldl_moveLeft_sorted [of f "[]"]
  by (simp add: foldl_moveLeft_mset sorted_wrt_rev not_less)

section \<open>The steps of \<open>MapPinsProjection\<close>\<close>

lemma lookup_Some: "a < length xs \<Longrightarrow> lookup xs a = Some (xs ! a)"
  by (simp add: lookup_def)

lemma slice_at_nth: "a < length xss \<Longrightarrow> slice_at xss a = xss ! a"
  by (simp add: slice_at_def lookup_def)

text \<open>The loop over \<open>coords\<close> fills \<open>cs\<close> with the projected points, and does not panic.\<close>

lemma foldM_set_Point:
  assumes "cs < length (pointSlices \<sigma>)" and "length (pointSlices \<sigma> ! cs) = k + length xs"
  shows "foldM (\<lambda>\<sigma> (i, c). set_Point \<sigma> cs i (f c)) \<sigma> (enumerate k xs) =
     Some (\<sigma>\<lparr>pointSlices := (pointSlices \<sigma>)[cs := take k (pointSlices \<sigma> ! cs) @ map f xs]\<rparr>)"
  using assms
proof (induction xs arbitrary: k \<sigma>)
  case Nil
  then show ?case by simp
next
  case (Cons x xs)
  let ?ps = "pointSlices \<sigma> ! cs"
  let ?\<sigma> = "\<sigma>\<lparr>pointSlices := (pointSlices \<sigma>)[cs := ?ps[k := f x]]\<rparr>"
  have step: "set_Point \<sigma> cs k (f x) = Some ?\<sigma>"
    using Cons.prems by (simp add: set_Point_def lookup_def)
  have "foldM (\<lambda>\<sigma> (i, c). set_Point \<sigma> cs i (f c)) ?\<sigma> (enumerate (Suc k) xs) =
     Some (?\<sigma>\<lparr>pointSlices := (pointSlices ?\<sigma>)[cs := take (Suc k) (pointSlices ?\<sigma> ! cs) @ map f xs]\<rparr>)"
    using Cons.prems by (intro Cons.IH) auto
  moreover have "take (Suc k) (?ps[k := f x]) = take k ?ps @ [f x]"
    using Cons.prems by (simp add: take_Suc_conv_app_nth)
  ultimately show ?case
    using Cons.prems step by simp
qed

lemma appendDraws_Nil: "appendDraws \<sigma> m [] = \<sigma>"
  by (simp add: appendDraws_def)

lemma appendDraws_append:
  "m < length (images \<sigma>) \<Longrightarrow> appendDraws (appendDraws \<sigma> m ds) m es = appendDraws \<sigma> m (ds @ es)"
  by (simp add: appendDraws_def)

lemma appendDraws_simps:
  "pointSlices (appendDraws \<sigma> m ds) = pointSlices \<sigma>"
  "coordSlices (appendDraws \<sigma> m ds) = coordSlices \<sigma>"
  "length (images (appendDraws \<sigma> m ds)) = length (images \<sigma>)"
  by (simp_all add: appendDraws_def)

lemma appendDraws_Bounds:
  "Bounds (images (appendDraws \<sigma> m ds) ! a) = Bounds (images \<sigma> ! a)"
  by (cases "a = m"; cases "m < length (images \<sigma>)") (simp_all add: appendDraws_def list_update_beyond)

lemma pinCall_appendDraws: "pinCall (images (appendDraws \<sigma> m ds)) pin = pinCall (images \<sigma>) pin"
  by (rule ext) (simp add: pinCall_def appendDraws_Bounds)

lemma pinCall_append: "pin < length ims \<Longrightarrow> pinCall (ims @ js) pin = pinCall ims pin"
  by (rule ext) (simp add: pinCall_def nth_append)

lemma Draw_Some:
  assumes "m < length (images \<sigma>)" and "src < length (images \<sigma>)"
  shows "Draw \<sigma> m r src sp op =
     Some (appendDraws \<sigma> m [\<lparr>call_r = r, call_src = src, call_sp = sp, call_op = op\<rparr>])"
  using assms by (simp add: Draw_def lookup_def appendDraws_def)

lemma foldM_Draw:
  assumes "m < length (images \<sigma>)" and "src < length (images \<sigma>)"
  shows "foldM (\<lambda>\<sigma> c. Draw \<sigma> m (r c) src sp op) \<sigma> cs =
     Some (appendDraws \<sigma> m (map (\<lambda>c. \<lparr>call_r = r c, call_src = src, call_sp = sp, call_op = op\<rparr>) cs))"
  using assms
proof (induction cs arbitrary: \<sigma>)
  case Nil
  then show ?case by (simp add: appendDraws_Nil)
next
  case (Cons c cs)
  then show ?case
    by (simp add: Draw_Some appendDraws_simps appendDraws_append)
qed

lemma drawPinPart_Some:
  assumes "m < length (images \<sigma>)" and "pin < length (images \<sigma>)"
  shows "drawPinPart m cs \<sigma> pin =
     Some (appendDraws \<sigma> m (map (pinCall (images \<sigma>) pin) (slice_at (pointSlices \<sigma>) cs)))"
proof -
  have "pinCall (images \<sigma>) pin =
     (\<lambda>c. \<lparr>call_r = pinRect (Bounds (images \<sigma> ! pin)) c, call_src = pin,
           call_sp = Min_pt (Bounds (images \<sigma> ! pin)), call_op = Over\<rparr>)"
    by (rule ext) (simp add: pinCall_def)
  with assms show ?thesis
    by (simp add: drawPinPart_def lookup_Some foldM_Draw)
qed

lemma foldM_drawPinPart:
  assumes "m < length (images \<sigma>)" and "\<forall>pin \<in> set pinParts. pin < length (images \<sigma>)"
  shows "foldM (drawPinPart m cs) \<sigma> pinParts =
     Some (appendDraws \<sigma> m
       (concat (map (\<lambda>pin. map (pinCall (images \<sigma>) pin) (slice_at (pointSlices \<sigma>) cs)) pinParts)))"
  using assms
proof (induction pinParts arbitrary: \<sigma>)
  case Nil
  then show ?case by (simp add: appendDraws_Nil)
next
  case (Cons pin pinParts)
  let ?\<sigma> = "appendDraws \<sigma> m (map (pinCall (images \<sigma>) pin) (slice_at (pointSlices \<sigma>) cs))"
  have "foldM (drawPinPart m cs) ?\<sigma> pinParts =
     Some (appendDraws ?\<sigma> m
       (concat (map (\<lambda>pin. map (pinCall (images ?\<sigma>) pin) (slice_at (pointSlices ?\<sigma>) cs)) pinParts)))"
    using Cons.prems by (intro Cons.IH) (simp_all add: appendDraws_simps)
  then show ?case
    using Cons.prems
    by (simp add: drawPinPart_Some appendDraws_simps appendDraws_append pinCall_appendDraws)
qed

text \<open>
  The whole call, when the map and the pin parts are images: what it returns and the
  heap it leaves.
\<close>

lemma MapPinsProjection_run:
  fixes \<sigma> :: "('f, 'px) Heap" and proj :: "'f Coord \<Rightarrow> int \<Rightarrow> int \<Rightarrow> Point"
    and sortSlice :: "(Point \<Rightarrow> Point \<Rightarrow> bool) \<Rightarrow> Point list \<Rightarrow> Point list" and coords :: ref
  assumes wm: "worldMap < length (images \<sigma>)"
    and pins: "\<forall>pin \<in> set pinParts. pin < length (images \<sigma>)"
  defines "mapWidth \<equiv> X (Max_pt (Bounds (images \<sigma> ! worldMap)))"
    and "mapHeight \<equiv> Y (Max_pt (Bounds (images \<sigma> ! worldMap)))"
  defines "cs \<equiv> sortSlice (\<lambda>a b. Y a < Y b)
                  (map (\<lambda>c. proj c mapWidth mapHeight) (slice_at (coordSlices \<sigma>) coords))"
  shows "MapPinsProjection fl sortSlice proj worldMap pinParts coords crop \<sigma> =
     Some (case crop of
             None \<Rightarrow> Whole (length (images \<sigma>))
           | Some c \<Rightarrow> SubImage (length (images \<sigma>))
                        (cropRect (cropBounds fl c mapWidth mapHeight (minmax mapWidth mapHeight cs))),
           \<sigma>\<lparr>pointSlices := pointSlices \<sigma> @ [cs],
             images := images \<sigma> @ [canvasOf \<sigma> worldMap pinParts cs]\<rparr>)"
proof -
  let ?xs = "slice_at (coordSlices \<sigma>) coords"
  let ?a = "length (pointSlices \<sigma>)"
  let ?m = "length (images \<sigma>)"
  let ?r = "Rect 0 0 (Dx (Bounds (images \<sigma> ! worldMap))) (Dy (Bounds (images \<sigma> ! worldMap)))"
  let ?\<sigma>1 = "\<sigma>\<lparr>pointSlices := pointSlices \<sigma> @ [replicate (length ?xs) \<lparr>X = 0, Y = 0\<rparr>]\<rparr>"
  let ?\<sigma>2 = "\<sigma>\<lparr>pointSlices := pointSlices \<sigma> @ [map (\<lambda>c. proj c mapWidth mapHeight) ?xs]\<rparr>"
  let ?\<sigma>3 = "\<sigma>\<lparr>pointSlices := pointSlices \<sigma> @ [cs]\<rparr>"
  let ?\<sigma>4 = "\<sigma>\<lparr>pointSlices := pointSlices \<sigma> @ [cs],
                images := images \<sigma> @ [\<lparr>Bounds = ?r, Pix = None, Draws = []\<rparr>]\<rparr>"
  have s1: "make_Points \<sigma> (length ?xs) = (?a, ?\<sigma>1)"
    by (simp add: make_Points_def)
  have s2: "foldM (\<lambda>\<sigma> (i, c). set_Point \<sigma> ?a i (proj c mapWidth mapHeight)) ?\<sigma>1 (enumerate 0 ?xs) = Some ?\<sigma>2"
    by (subst foldM_set_Point) simp_all
  have s3: "sort_Slice sortSlice ?\<sigma>2 ?a (\<lambda>a b. Y a < Y b) = ?\<sigma>3"
    by (simp add: sort_Slice_def slice_at_nth cs_def)
  have s4: "NewRGBA ?\<sigma>3 ?r = (?m, ?\<sigma>4)"
    by (simp add: NewRGBA_def)
  let ?base = "\<lparr>call_r = ?r, call_src = worldMap,
                call_sp = Min_pt (Bounds (images \<sigma> ! worldMap)), call_op = Over\<rparr>"
  have s5: "Draw ?\<sigma>4 ?m ?r worldMap (Min_pt (Bounds (images \<sigma> ! worldMap))) Over =
      Some (appendDraws ?\<sigma>4 ?m [?base])"
    using wm by (simp add: Draw_Some)
  let ?\<sigma>5 = "appendDraws ?\<sigma>4 ?m [?base]"
  have s6: "foldM (drawPinPart ?m ?a) ?\<sigma>5 pinParts =
      Some (appendDraws ?\<sigma>5 ?m
        (concat (map (\<lambda>pin. map (pinCall (images ?\<sigma>5) pin) (slice_at (pointSlices ?\<sigma>5) ?a)) pinParts)))"
    using pins by (intro foldM_drawPinPart) (auto simp: appendDraws_simps)
  have calls: "map (\<lambda>pin. map (pinCall (images ?\<sigma>5) pin) (slice_at (pointSlices ?\<sigma>5) ?a)) pinParts =
      map (\<lambda>pin. map (pinCall (images \<sigma>) pin) cs) pinParts"
    using pins by (auto simp: pinCall_appendDraws pinCall_append appendDraws_simps slice_at_nth)
  have final: "appendDraws ?\<sigma>5 ?m (concat (map (\<lambda>pin. map (pinCall (images \<sigma>) pin) cs) pinParts)) =
      \<sigma>\<lparr>pointSlices := pointSlices \<sigma> @ [cs], images := images \<sigma> @ [canvasOf \<sigma> worldMap pinParts cs]\<rparr>"
    by (simp add: appendDraws_def canvasOf_def Let_def)
  show ?thesis
    unfolding MapPinsProjection_def
    using wm
    by (simp add: lookup_Some mapWidth_def [symmetric] mapHeight_def [symmetric] s1 s2 s3 s4 s5 s6
        calls final slice_at_nth split: option.split)
qed

section \<open>A call changes no object of its caller\<close>

lemma foldM_invariant:
  assumes "foldM f s xs = Some s'" and "P s"
    and "\<And>s x s'. f s x = Some s' \<Longrightarrow> P s \<Longrightarrow> P s'"
  shows "P s'"
  using assms(1,2)
proof (induction xs arbitrary: s)
  case Nil
  then show ?case by simp
next
  case (Cons x xs)
  then show ?case
    by (auto split: option.splits intro: assms(3))
qed

lemma extends_refl: "extends \<sigma> \<sigma>"
  by (simp add: extends_def)

lemma extends_make_Points: "extends \<sigma> \<sigma>1 \<Longrightarrow> extends \<sigma> (snd (make_Points \<sigma>1 n))"
  by (auto simp add: extends_def make_Points_def take_append dest: arg_cong [where f = length])

lemma extends_NewRGBA: "extends \<sigma> \<sigma>1 \<Longrightarrow> extends \<sigma> (snd (NewRGBA \<sigma>1 r))"
  by (auto simp add: extends_def NewRGBA_def take_append dest: arg_cong [where f = length])

lemma extends_set_Point:
  "extends \<sigma> \<sigma>1 \<Longrightarrow> length (pointSlices \<sigma>) \<le> cs \<Longrightarrow> set_Point \<sigma>1 cs i p = Some \<sigma>2 \<Longrightarrow> extends \<sigma> \<sigma>2"
  by (auto simp add: extends_def set_Point_def split: option.splits if_splits)

lemma extends_sort_Slice:
  "extends \<sigma> \<sigma>1 \<Longrightarrow> length (pointSlices \<sigma>) \<le> cs \<Longrightarrow> extends \<sigma> (sort_Slice sortSlice \<sigma>1 cs lt)"
  by (auto simp add: extends_def sort_Slice_def)

lemma extends_Draw:
  "extends \<sigma> \<sigma>1 \<Longrightarrow> length (images \<sigma>) \<le> m \<Longrightarrow> Draw \<sigma>1 m r src sp op = Some \<sigma>2 \<Longrightarrow> extends \<sigma> \<sigma>2"
  by (auto simp add: extends_def Draw_def split: option.splits)

lemma extends_drawPinPart:
  assumes "extends \<sigma> \<sigma>1" and "length (images \<sigma>) \<le> m" and "drawPinPart m cs \<sigma>1 pin = Some \<sigma>2"
  shows "extends \<sigma> \<sigma>2"
proof -
  obtain p where p: "lookup (images \<sigma>1) pin = Some p"
    using assms(3) by (cases "lookup (images \<sigma>1) pin") (simp_all add: drawPinPart_def)
  with assms(3) have
    "foldM (\<lambda>\<sigma> c. Draw \<sigma> m (pinRect (Bounds p) c) pin (Min_pt (Bounds p)) Over) \<sigma>1
       (slice_at (pointSlices \<sigma>1) cs) = Some \<sigma>2"
    by (simp add: drawPinPart_def)
  then show ?thesis
    using assms(1) by (rule foldM_invariant) (auto intro: extends_Draw assms(2))
qed

lemma MapPinsProjection_extends:
  assumes run: "MapPinsProjection fl sortSlice proj worldMap pinParts coords crop \<sigma> = Some (out, \<sigma>')"
  shows "extends \<sigma> \<sigma>'"
proof -
  let ?cs = "length (pointSlices \<sigma>)"
  let ?xs = "slice_at (coordSlices \<sigma>) coords"
  obtain wm where wm: "lookup (images \<sigma>) worldMap = Some wm"
    using run by (cases "lookup (images \<sigma>) worldMap") (simp_all add: MapPinsProjection_def)
  define \<sigma>1 where "\<sigma>1 = \<sigma>\<lparr>pointSlices := pointSlices \<sigma> @ [replicate (length ?xs) \<lparr>X = 0, Y = 0\<rparr>]\<rparr>"
  have s1: "make_Points \<sigma> (length ?xs) = (?cs, \<sigma>1)"
    by (simp add: make_Points_def \<sigma>1_def)
  have xs1: "slice_at (coordSlices \<sigma>1) coords = ?xs"
    by (simp add: \<sigma>1_def)
  let ?loop = "foldM (\<lambda>\<sigma> (i, c). set_Point \<sigma> ?cs i (proj c (X (Max_pt (Bounds wm))) (Y (Max_pt (Bounds wm)))))
                 \<sigma>1 (enumerate 0 ?xs)"
  obtain \<sigma>2 where s2: "?loop = Some \<sigma>2"
    using run by (cases ?loop) (simp_all add: MapPinsProjection_def wm s1 xs1)
  define \<sigma>3 where "\<sigma>3 = sort_Slice sortSlice \<sigma>2 ?cs (\<lambda>a b. Y a < Y b)"
  define r where "r = Rect 0 0 (Dx (Bounds wm)) (Dy (Bounds wm))"
  define m where "m = length (images \<sigma>3)"
  define \<sigma>4 where "\<sigma>4 = \<sigma>3\<lparr>images := images \<sigma>3 @ [\<lparr>Bounds = r, Pix = None, Draws = []\<rparr>]\<rparr>"
  have s4: "NewRGBA \<sigma>3 r = (m, \<sigma>4)"
    by (simp add: NewRGBA_def m_def \<sigma>4_def)
  have mi: "lookup (images \<sigma>4) m = Some \<lparr>Bounds = r, Pix = None, Draws = []\<rparr>"
    by (simp add: lookup_def m_def \<sigma>4_def)
  let ?draw = "Draw \<sigma>4 m r worldMap (Min_pt (Bounds wm)) Over"
  note facts = MapPinsProjection_def wm s1 xs1 s2 \<sigma>3_def [symmetric] r_def [symmetric] s4 mi
  obtain \<sigma>5 where s5: "?draw = Some \<sigma>5"
    using run by (cases ?draw) (simp_all add: facts)
  have s6: "foldM (drawPinPart m ?cs) \<sigma>5 pinParts = Some \<sigma>'"
    using run
    by (cases "foldM (drawPinPart m ?cs) \<sigma>5 pinParts"; cases crop) (simp_all add: facts s5 Let_def)
  have e1: "extends \<sigma> \<sigma>1"
    using extends_make_Points [OF extends_refl, of \<sigma> "length ?xs"] by (simp add: s1)
  have e2: "extends \<sigma> \<sigma>2"
    using s2 e1 by (rule foldM_invariant) (auto intro: extends_set_Point)
  have e3: "extends \<sigma> \<sigma>3"
    unfolding \<sigma>3_def using e2 by (rule extends_sort_Slice) simp
  have e4: "extends \<sigma> \<sigma>4"
    using extends_NewRGBA [OF e3, of r] by (simp add: s4)
  have m: "length (images \<sigma>) \<le> m"
    using e3 by (auto simp add: m_def extends_def dest: arg_cong [where f = length])
  have e5: "extends \<sigma> \<sigma>5"
    using e4 m s5 by (rule extends_Draw)
  show ?thesis
    using s6 e5 by (rule foldM_invariant) (auto intro: extends_drawPinPart m)
qed

section \<open>The example, run\<close>

text \<open>
  On the equator \<open>tan\<close> is taken at \<open>pi / 4\<close> and the logarithm at 1, so the
  projection of the example is the same in \<open>float64\<close> as without rounding: x is
  180 plus the longitude, y is 90.
\<close>

lemma Convert_exact_equator:
  "mercatorProjection_Convert exact \<lparr>Lat = 0, Long = 10\<rparr> 360 180 = \<lparr>X = 190, Y = 90\<rparr>"
  "mercatorProjection_Convert exact \<lparr>Lat = 0, Long = - 10\<rparr> 360 180 = \<lparr>X = 170, Y = 90\<rparr>"
  "mercatorProjection_Convert exact \<lparr>Lat = 0, Long = 0\<rparr> 360 180 = \<lparr>X = 180, Y = 90\<rparr>"
  "mercatorProjection_Convert exact \<lparr>Lat = 0, Long = 175\<rparr> 360 180 = \<lparr>X = 355, Y = 90\<rparr>"
  by (simp_all add: mercatorProjection_Convert_def mercatorProjection_n_def mercatorProjection_latRad_def
      exact_def int_of_def wrap64_def tan_45)

lemma exampleHeap_simps:
  "length (images exampleHeap) = 3"
  "pointSlices exampleHeap = []"
  "Bounds (images exampleHeap ! 0) = \<lparr>Min_pt = \<lparr>X = 0, Y = 0\<rparr>, Max_pt = \<lparr>X = 360, Y = 180\<rparr>\<rparr>"
  "Bounds (images exampleHeap ! Suc 0) = \<lparr>Min_pt = \<lparr>X = 0, Y = 0\<rparr>, Max_pt = \<lparr>X = 10, Y = 6\<rparr>\<rparr>"
  "Bounds (images exampleHeap ! 2) = \<lparr>Min_pt = \<lparr>X = 0, Y = 0\<rparr>, Max_pt = \<lparr>X = 10, Y = 20\<rparr>\<rparr>"
  "slice_at (coordSlices exampleHeap) 0 = [\<lparr>Lat = 0, Long = 10\<rparr>, \<lparr>Lat = 0, Long = - 10\<rparr>]"
  "slice_at (coordSlices exampleHeap) (Suc 0) = [\<lparr>Lat = 0, Long = 0\<rparr>]"
  "slice_at (coordSlices exampleHeap) 2 = [\<lparr>Lat = 0, Long = 175\<rparr>]"
  by (simp_all add: exampleHeap_def Rect_def slice_at_def lookup_def)

lemmas crop_eval =
  minmax_def minmax_step_def cropRect_def cropBounds_def minHeight_of_def Rect_def
  add64_id sub64_id neg64_id quo64_two is_int64_num Let_def

lemma example_run:
  "MapPinsProjection exact insertionSort (mercatorProjection_Convert exact) 0 [1, 2] 0 crop exampleHeap =
     Some (case crop of
             None \<Rightarrow> Whole 3
           | Some c \<Rightarrow> SubImage 3 (cropRect (cropBounds exact c 360 180 (170, 90, 190, 90))),
           exampleAfter)"
  by (subst MapPinsProjection_run)
     (simp_all add: exampleHeap_simps Convert_exact_equator insertionSort_def minmax_def minmax_step_def
       exampleAfter_def examplePoints_def split: option.split)

section \<open>The calls on the canvas, by layer\<close>

lemma length_concat_layers:
  "length (concat (map (\<lambda>p. map (f p) cs) ps)) = length ps * length cs"
  by (induction ps) simp_all

lemma nth_concat_layers:
  assumes "i < length ps" and "j < length cs"
  shows "concat (map (\<lambda>p. map (f p) cs) ps) ! (i * length cs + j) = f (ps ! i) (cs ! j)"
  using assms
proof (induction ps arbitrary: i)
  case Nil
  then show ?case by simp
next
  case (Cons p ps)
  show ?case
  proof (cases i)
    case 0
    with Cons.prems show ?thesis by (simp add: nth_append)
  next
    case (Suc i')
    with Cons.prems have "concat (map (\<lambda>p. map (f p) cs) ps) ! (i' * length cs + j) = f (ps ! i') (cs ! j)"
      by (intro Cons.IH) simp_all
    with Suc show ?thesis by (simp add: nth_append add.assoc)
  qed
qed

lemma take_drop_concat_layers:
  assumes "i < length ps"
  shows "take (length cs) (drop (i * length cs) (concat (map (\<lambda>p. map (f p) cs) ps))) = map (f (ps ! i)) cs"
  using assms
proof (induction ps arbitrary: i)
  case Nil
  then show ?case by simp
next
  case (Cons p ps)
  show ?case
  proof (cases i)
    case 0
    then show ?thesis by simp
  next
    case (Suc i')
    with Cons.prems have "take (length cs) (drop (i' * length cs) (concat (map (\<lambda>p. map (f p) cs) ps))) =
        map (f (ps ! i')) cs"
      by (intro Cons.IH) simp
    with Suc show ?thesis by simp
  qed
qed

lemma canvasOf_simps:
  "Bounds (canvasOf \<sigma> worldMap pinParts cs) =
     Rect 0 0 (Dx (Bounds (images \<sigma> ! worldMap))) (Dy (Bounds (images \<sigma> ! worldMap)))"
  "Draws (canvasOf \<sigma> worldMap pinParts cs) =
     \<lparr>call_r = Rect 0 0 (Dx (Bounds (images \<sigma> ! worldMap))) (Dy (Bounds (images \<sigma> ! worldMap))),
      call_src = worldMap, call_sp = Min_pt (Bounds (images \<sigma> ! worldMap)), call_op = Over\<rparr> #
     concat (map (\<lambda>pin. map (pinCall (images \<sigma>) pin) cs) pinParts)"
  by (simp_all add: canvasOf_def Let_def)

lemma Dx_int64: "is_int64 (Dx r)" and Dy_int64: "is_int64 (Dy r)"
  by (simp_all add: Dx_def Dy_def sub64_def wrap64_int64)

lemma Rect_origin:
  assumes "0 \<le> w" "0 \<le> h" "is_int64 w" "is_int64 h"
  shows "Dx (Rect 0 0 w h) = w" "Dy (Rect 0 0 w h) = h" "Min_pt (Rect 0 0 w h) = \<lparr>X = 0, Y = 0\<rparr>"
  using assms by (simp_all add: Rect_def Dx_def Dy_def sub64_id)

lemma sorted_wrt_positions:
  fixes f :: "'a \<Rightarrow> 'b::linorder"
  assumes "sorted_wrt (\<lambda>a b. \<not> f b < f a) cs" and "j < length cs" and "k < length cs"
    and "f (cs ! j) < f (cs ! k)"
  shows "j < k"
proof (rule ccontr)
  assume "\<not> j < k"
  then consider "k = j" | "k < j" by linarith
  then show False
  proof cases
    case 1
    with assms(4) show False by simp
  next
    case 2
    with assms(1,2) have "\<not> f (cs ! j) < f (cs ! k)"
      by (simp add: sorted_wrt_iff_nth_less)
    with assms(4) show False by simp
  qed
qed

section \<open>Rounding to \<open>float64\<close>\<close>

lemma round64_at:
  assumes "0 < x" and "2 powr of_int e \<le> x" and "x < 2 powr of_int (e + 1)"
  shows "round64 x = of_int (round_even (x / 2 powr (of_int e - 52))) * 2 powr (of_int e - 52)"
proof -
  have "\<lfloor>log 2 x\<rfloor> = e"
    using assms by (subst floor_log_eq_powr_iff) simp_all
  with assms(1) show ?thesis
    by (simp add: round64_def Let_def)
qed

lemma round64_values:
  "round64 13 = 13" "round64 360 = 360" "round64 180 = 180" "round64 2340 = 2340"
  "round64 (13 / 2) = 13 / 2"
  "round64 (13 / 360) = 5204159569405906 / 144115188075855872"
  "round64 (180 * (5204159569405906 / 144115188075855872)) = 7318349394477055 / 1125899906842624"
  using round64_at [of 13 3] round64_at [of 360 8] round64_at [of 180 7] round64_at [of 2340 11]
    round64_at [of "13 / 2" 2] round64_at [of "13 / 360" "-5"]
    round64_at [of "180 * (5204159569405906 / 144115188075855872)" 2]
  by (simp_all add: round_even_def powr_neg_numeral Let_def)

section \<open>The exact arithmetic keeps the order\<close>






section \<open>The second example, run\<close>

lemma plateCarree_exact:
  "plateCarree exact \<lparr>Lat = - 30, Long = 10\<rparr> 360 180 = \<lparr>X = 190, Y = 120\<rparr>"
  "plateCarree exact \<lparr>Lat = 30, Long = - 10\<rparr> 360 180 = \<lparr>X = 170, Y = 60\<rparr>"
  by (simp_all add: plateCarree_def exact_def int_of_def wrap64_def)

lemma southNorthHeap_simps:
  "length (images southNorthHeap) = 3"
  "pointSlices southNorthHeap = []"
  "Bounds (images southNorthHeap ! 0) = \<lparr>Min_pt = \<lparr>X = 0, Y = 0\<rparr>, Max_pt = \<lparr>X = 360, Y = 180\<rparr>\<rparr>"
  "Bounds (images southNorthHeap ! Suc 0) = \<lparr>Min_pt = \<lparr>X = 0, Y = 0\<rparr>, Max_pt = \<lparr>X = 10, Y = 6\<rparr>\<rparr>"
  "Bounds (images southNorthHeap ! 2) = \<lparr>Min_pt = \<lparr>X = 0, Y = 0\<rparr>, Max_pt = \<lparr>X = 10, Y = 20\<rparr>\<rparr>"
  "slice_at (coordSlices southNorthHeap) 0 = [\<lparr>Lat = - 30, Long = 10\<rparr>, \<lparr>Lat = 30, Long = - 10\<rparr>]"
  by (simp_all add: southNorthHeap_def exampleHeap_simps slice_at_def lookup_def)

lemma southNorth_run:
  "MapPinsProjection exact insertionSort (plateCarree exact) 0 [1, 2] 0 None southNorthHeap =
     Some (Whole 3, southNorthAfter)"
  by (subst MapPinsProjection_run)
     (simp_all add: southNorthHeap_simps plateCarree_exact insertionSort_def
       southNorthAfter_def)

section \<open>The claims\<close>

text \<open>
  C1. For every non-empty coordinate list and every non-nil crop, the rectangle
  passed to \<open>SubImage\<close> lies within \<open>[0, mapWidth] x [0, mapHeight]\<close>, each of
  \<open>minX\<close>, \<open>minY\<close>, \<open>maxX\<close>, \<open>maxY\<close> being clamped to its own axis after the margin.

  The code does not do so: the clamp of \<open>maxY\<close> assigns \<open>mapHeight\<close> to \<open>maxX\<close>.
  One pin at latitude 0, longitude 0, on a map of 360 by 180, with a margin of 100:
  the rectangle passed to \<open>SubImage\<close> reaches down to y = 190, below the map, and
  its right edge is the map's height, 180, where the margin asked for 280.
\<close>

theorem crop_rectangle_leaves_the_map:
  "map_option fst (MapPins exact insertionSort 0 [1, 2] 1
        (Some \<lparr>Bound = 100, MinWidth = 50, MinHeight = 50, PreserveRatio = False\<rparr>) exampleHeap) =
     Some (SubImage 3 \<lparr>Min_pt = \<lparr>X = 80, Y = 0\<rparr>, Max_pt = \<lparr>X = 180, Y = 190\<rparr>\<rparr>)"
  unfolding MapPins_def
  by (subst MapPinsProjection_run)
     (simp_all add: exampleHeap_simps Convert_exact_equator insertionSort_def crop_eval cong: let_weak_cong)

text \<open>
  C2. With \<open>MinWidth \<le> mapWidth\<close> the final rectangle is at least \<open>MinWidth\<close> wide,
  and likewise for the effective minimum height.

  The code does not do so. An expansion that pushes \<open>minX\<close> below 0 gives the
  shortfall to \<open>maxX\<close>; one that pushes \<open>maxX\<close> beyond the map is cut, and nothing
  is given to \<open>minX\<close>. One pin at latitude 0, longitude 175, on a map of 360 by 180,
  with \<open>MinWidth = 100\<close>: the rectangle is 55 wide.
\<close>

theorem crop_rectangle_narrower_than_MinWidth:
  "map_option fst (MapPins exact insertionSort 0 [1, 2] 2
        (Some \<lparr>Bound = 5, MinWidth = 100, MinHeight = 50, PreserveRatio = False\<rparr>) exampleHeap) =
     Some (SubImage 3 \<lparr>Min_pt = \<lparr>X = 305, Y = 65\<rparr>, Max_pt = \<lparr>X = 360, Y = 115\<rparr>\<rparr>)"
  unfolding MapPins_def
  by (subst MapPinsProjection_run)
     (simp_all add: exampleHeap_simps Convert_exact_equator insertionSort_def crop_eval cong: let_weak_cong)

text \<open>
  The halving of an odd deficit leaves the rectangle one pixel short as well, away
  from every edge of the map: with \<open>MinWidth = 101\<close> and \<open>MinHeight = 51\<close> a single
  point in the middle of the map gets a rectangle of 100 by 50.
\<close>

lemma odd_deficit_one_pixel_short:
  "cropBounds exact \<lparr>Bound = 0, MinWidth = 101, MinHeight = 51, PreserveRatio = False\<rparr> 360 180
     (180, 90, 180, 90) = (130, 65, 230, 115)"
  by (simp add: crop_eval cong: let_weak_cong)

text \<open>
  C9. \<open>MapPinsProjection\<close> never modifies its input: whenever the call returns, the
  array of \<open>coords\<close> (every array of coordinates), every array of points and every
  image that the heap held before the call is as it was. The array of \<open>cs\<close> and the
  canvas \<open>m\<close>, which the call writes, are new objects.
\<close>

theorem MapPinsProjection_frame:
  assumes "MapPinsProjection fl sortSlice proj worldMap pinParts coords crop \<sigma> = Some (out, \<sigma>')"
  shows "coordSlices \<sigma>' = coordSlices \<sigma> \<and>
         take (length (pointSlices \<sigma>)) (pointSlices \<sigma>') = pointSlices \<sigma> \<and>
         take (length (images \<sigma>)) (images \<sigma>') = images \<sigma>"
  using MapPinsProjection_extends [OF assms] by (simp add: extends_def)

theorem MapPinsProjection_frame_witness:
  "MapPinsProjection exact insertionSort (mercatorProjection_Convert exact) 0 [1, 2] 0
      (Some \<lparr>Bound = 100, MinWidth = 50, MinHeight = 50, PreserveRatio = False\<rparr>) exampleHeap =
     Some (SubImage 3 \<lparr>Min_pt = \<lparr>X = 70, Y = 0\<rparr>, Max_pt = \<lparr>X = 180, Y = 190\<rparr>\<rparr>, exampleAfter) \<and>
   coordSlices exampleAfter = coordSlices exampleHeap \<and>
   take (length (pointSlices exampleHeap)) (pointSlices exampleAfter) = pointSlices exampleHeap \<and>
   take (length (images exampleHeap)) (images exampleAfter) = images exampleHeap"
proof -
  have run: "MapPinsProjection exact insertionSort (mercatorProjection_Convert exact) 0 [1, 2] 0
      (Some \<lparr>Bound = 100, MinWidth = 50, MinHeight = 50, PreserveRatio = False\<rparr>) exampleHeap =
     Some (SubImage 3 \<lparr>Min_pt = \<lparr>X = 70, Y = 0\<rparr>, Max_pt = \<lparr>X = 180, Y = 190\<rparr>\<rparr>, exampleAfter)"
    by (subst example_run) (simp add: crop_eval cong: let_weak_cong)
  from MapPinsProjection_frame [OF run] run show ?thesis
    by simp
qed

text \<open>
  C10. In the Mercator projection the pixel X depends only on the longitude and
  \<open>mapWidth\<close>, and the pixel Y only on the latitude, \<open>mapWidth\<close> and \<open>mapHeight\<close>,
  whatever the floating-point operations compute.
\<close>

theorem Convert_X_Y_depend:
  "X (mercatorProjection_Convert fl \<lparr>Lat = lat1, Long = long\<rparr> mapWidth mapHeight1) =
   X (mercatorProjection_Convert fl \<lparr>Lat = lat2, Long = long\<rparr> mapWidth mapHeight2) \<and>
   Y (mercatorProjection_Convert fl \<lparr>Lat = lat, Long = long1\<rparr> mapWidth mapHeight) =
   Y (mercatorProjection_Convert fl \<lparr>Lat = lat, Long = long2\<rparr> mapWidth mapHeight)"
  by (simp add: mercatorProjection_Convert_def Let_def)

text \<open>
  C5. When \<open>crop\<close> is \<open>nil\<close> and the map and the pin parts are images, the call
  returns the canvas \<open>m\<close> itself, not a sub-image of it, whatever the coordinates;
  when the bounds of the map have no negative extent, the canvas is as wide and as
  high as the map.
\<close>

theorem nil_crop_returns_whole_canvas:
  assumes "worldMap < length (images \<sigma>)"
    and "\<forall>pin \<in> set pinParts. pin < length (images \<sigma>)"
    and "0 \<le> Dx (Bounds (images \<sigma> ! worldMap))" and "0 \<le> Dy (Bounds (images \<sigma> ! worldMap))"
  shows "\<exists>\<sigma>'. MapPinsProjection fl sortSlice proj worldMap pinParts coords None \<sigma> =
             Some (Whole (length (images \<sigma>)), \<sigma>') \<and>
           Dx (Bounds (images \<sigma>' ! length (images \<sigma>))) = Dx (Bounds (images \<sigma> ! worldMap)) \<and>
           Dy (Bounds (images \<sigma>' ! length (images \<sigma>))) = Dy (Bounds (images \<sigma> ! worldMap))"
  using assms
  by (simp add: MapPinsProjection_run canvasOf_simps Rect_origin Dx_int64 Dy_int64)

theorem nil_crop_returns_whole_canvas_witness:
  "0 < length (images exampleHeap) \<and> 1 < length (images exampleHeap) \<and> 2 < length (images exampleHeap) \<and>
   0 \<le> Dx (Bounds (images exampleHeap ! 0)) \<and> 0 \<le> Dy (Bounds (images exampleHeap ! 0)) \<and>
   MapPinsProjection exact insertionSort (mercatorProjection_Convert exact) 0 [1, 2] 0 None exampleHeap =
     Some (Whole 3, exampleAfter) \<and>
   Dx (Bounds (images exampleAfter ! 3)) = 360 \<and> Dy (Bounds (images exampleAfter ! 3)) = 180 \<and>
   Dx (Bounds (images exampleHeap ! 0)) = 360 \<and> Dy (Bounds (images exampleHeap ! 0)) = 180"
proof -
  have d: "Dx (Bounds (images exampleHeap ! 0)) = 360" "Dy (Bounds (images exampleHeap ! 0)) = 180"
    by (simp_all add: exampleHeap_simps Dx_def Dy_def sub64_id is_int64_num)
  have h: "0 < length (images exampleHeap)" "\<forall>pin \<in> set [1, 2]. pin < length (images exampleHeap)"
    by (simp_all add: exampleHeap_simps)
  have run: "MapPinsProjection exact insertionSort (mercatorProjection_Convert exact) 0 [1, 2] 0 None exampleHeap =
     Some (Whole 3, exampleAfter)"
    by (subst example_run) simp
  from nil_crop_returns_whole_canvas [OF h, of exact insertionSort "mercatorProjection_Convert exact" 0]
  show ?thesis
    using h d run by (simp add: exampleHeap_simps)
qed

text \<open>
  C8. The pin parts are drawn layer by layer. After the call, the canvas holds one
  call of \<open>draw.Draw\<close> for the map and then one for each pin part and point: the
  call for \<open>pinParts[i]\<close> at the point \<open>cs[j]\<close> is the call number
  \<open>1 + i * len(cs) + j\<close>. So every call for \<open>pinParts[i]\<close> comes before every call
  for \<open>pinParts[i+1]\<close>, and within a layer the points come in the order of \<open>cs\<close>.
\<close>

theorem pin_parts_drawn_layer_by_layer:
  assumes "worldMap < length (images \<sigma>)"
    and "\<forall>pin \<in> set pinParts. pin < length (images \<sigma>)"
  shows "\<exists>out \<sigma>'. MapPinsProjection fl sortSlice proj worldMap pinParts coords crop \<sigma> = Some (out, \<sigma>') \<and>
     (let cs = slice_at (pointSlices \<sigma>') (length (pointSlices \<sigma>));
          ds = Draws (images \<sigma>' ! length (images \<sigma>))
      in length ds = 1 + length pinParts * length cs \<and>
         (\<forall>i < length pinParts. \<forall>j < length cs.
            ds ! (1 + i * length cs + j) = pinCall (images \<sigma>) (pinParts ! i) (cs ! j)))"
  using assms
  by (simp add: MapPinsProjection_run canvasOf_simps slice_at_nth length_concat_layers nth_concat_layers)

theorem pin_parts_drawn_layer_by_layer_witness:
  "0 < length (images exampleHeap) \<and> 1 < length (images exampleHeap) \<and> 2 < length (images exampleHeap) \<and>
   MapPinsProjection exact insertionSort (mercatorProjection_Convert exact) 0 [1, 2] 0 None exampleHeap =
     Some (Whole 3, exampleAfter) \<and>
   map call_src (Draws (images exampleAfter ! 3)) = [0, 1, 1, 2, 2] \<and>
   map (X \<circ> Max_pt \<circ> call_r) (Draws (images exampleAfter ! 3)) = [360, 195, 175, 195, 175]"
proof -
  have h: "0 < length (images exampleHeap)" "\<forall>pin \<in> set [1, 2]. pin < length (images exampleHeap)"
    by (simp_all add: exampleHeap_simps)
  have run: "MapPinsProjection exact insertionSort (mercatorProjection_Convert exact) 0 [1, 2] 0 None exampleHeap =
     Some (Whole 3, exampleAfter)"
    by (subst example_run) simp
  have ds: "map call_src (Draws (images exampleAfter ! 3)) = [0, 1, 1, 2, 2]"
    "map (X \<circ> Max_pt \<circ> call_r) (Draws (images exampleAfter ! 3)) = [360, 195, 175, 195, 175]"
    by (simp_all add: exampleAfter_def examplePoints_def exampleHeap_simps canvasOf_simps pinCall_def nth_append
        pinRect_def Rect_def Dx_def Dy_def sub64_id add64_id quo64_two is_int64_num)
  from pin_parts_drawn_layer_by_layer [OF h, of exact insertionSort "mercatorProjection_Convert exact" 0 None]
  show ?thesis
    using h run ds by simp
qed

text \<open>
  C3. The draw order is sorted by ascending pixel Y, with ties broken by ascending
  pixel X.

  The comparison of the source looks at Y alone. In the example the two pins have
  Y = 90; the one at X = 190 comes first in \<open>coords\<close> and is drawn first.
\<close>

theorem equal_Y_larger_X_drawn_first:
  "map_option (\<lambda>(out, \<sigma>'). (slice_at (pointSlices \<sigma>') 0, map call_r (Draws (images \<sigma>' ! 3))))
     (MapPins exact insertionSort 0 [2] 0 None exampleHeap) =
   Some ([\<lparr>X = 190, Y = 90\<rparr>, \<lparr>X = 170, Y = 90\<rparr>],
         [\<lparr>Min_pt = \<lparr>X = 0, Y = 0\<rparr>, Max_pt = \<lparr>X = 360, Y = 180\<rparr>\<rparr>,
          \<lparr>Min_pt = \<lparr>X = 185, Y = 70\<rparr>, Max_pt = \<lparr>X = 195, Y = 90\<rparr>\<rparr>,
          \<lparr>Min_pt = \<lparr>X = 165, Y = 70\<rparr>, Max_pt = \<lparr>X = 175, Y = 90\<rparr>\<rparr>]) \<and>
   \<not> sorted_wrt (\<lambda>a b. Y a < Y b \<or> Y a = Y b \<and> X a \<le> X b) [\<lparr>X = 190, Y = 90\<rparr>, \<lparr>X = 170, Y = 90\<rparr>]"
  unfolding MapPins_def
  by (subst MapPinsProjection_run)
     (simp_all add: exampleHeap_simps Convert_exact_equator insertionSort_def slice_at_nth canvasOf_simps nth_append
       pinCall_def pinRect_def Rect_def Dx_def Dy_def sub64_id add64_id quo64_two is_int64_num)

text \<open>
  C3, as amended. Whatever \<open>sort.Slice\<close> does among equal elements, \<open>cs\<close> holds the
  projected points, a point with a smaller Y stands before every point with a larger
  Y, and each layer draws the points in the order of \<open>cs\<close>. Nothing is said of
  the points with the same Y.
\<close>

theorem points_drawn_by_ascending_Y:
  assumes "sorts sortSlice (\<lambda>a b. Y a < Y b)"
    and "worldMap < length (images \<sigma>)"
    and "\<forall>pin \<in> set pinParts. pin < length (images \<sigma>)"
  shows "\<exists>out \<sigma>'. MapPinsProjection fl sortSlice proj worldMap pinParts coords crop \<sigma> = Some (out, \<sigma>') \<and>
     (let cs = slice_at (pointSlices \<sigma>') (length (pointSlices \<sigma>));
          ds = Draws (images \<sigma>' ! length (images \<sigma>))
      in mset cs = mset (map (\<lambda>c. proj c (X (Max_pt (Bounds (images \<sigma> ! worldMap))))
                                          (Y (Max_pt (Bounds (images \<sigma> ! worldMap)))))
                          (slice_at (coordSlices \<sigma>) coords)) \<and>
         (\<forall>j < length cs. \<forall>k < length cs. Y (cs ! j) < Y (cs ! k) \<longrightarrow> j < k) \<and>
         (\<forall>i < length pinParts.
            take (length cs) (drop (1 + i * length cs) ds) = map (pinCall (images \<sigma>) (pinParts ! i)) cs))"
proof -
  let ?ps = "map (\<lambda>c. proj c (X (Max_pt (Bounds (images \<sigma> ! worldMap))))
                              (Y (Max_pt (Bounds (images \<sigma> ! worldMap)))))
               (slice_at (coordSlices \<sigma>) coords)"
  let ?cs = "sortSlice (\<lambda>a b. Y a < Y b) ?ps"
  let ?out = "case crop of
                None \<Rightarrow> Whole (length (images \<sigma>))
              | Some c \<Rightarrow> SubImage (length (images \<sigma>))
                  (cropRect (cropBounds fl c (X (Max_pt (Bounds (images \<sigma> ! worldMap))))
                     (Y (Max_pt (Bounds (images \<sigma> ! worldMap))))
                     (minmax (X (Max_pt (Bounds (images \<sigma> ! worldMap))))
                        (Y (Max_pt (Bounds (images \<sigma> ! worldMap)))) ?cs)))"
  let ?\<sigma>' = "\<sigma>\<lparr>pointSlices := pointSlices \<sigma> @ [?cs],
               images := images \<sigma> @ [canvasOf \<sigma> worldMap pinParts ?cs]\<rparr>"
  have run: "MapPinsProjection fl sortSlice proj worldMap pinParts coords crop \<sigma> = Some (?out, ?\<sigma>')"
    using assms(2,3) by (rule MapPinsProjection_run)
  have cs: "slice_at (pointSlices ?\<sigma>') (length (pointSlices \<sigma>)) = ?cs"
    by (simp add: slice_at_nth)
  from assms(1) have perm: "mset ?cs = mset ?ps"
    and sorted: "sorted_wrt (\<lambda>a b. \<not> Y b < Y a) ?cs"
    by (simp_all add: sorts_def)
  have order: "\<forall>j < length ?cs. \<forall>k < length ?cs. Y (?cs ! j) < Y (?cs ! k) \<longrightarrow> j < k"
    using sorted_wrt_positions [OF sorted] by blast
  have layers: "\<forall>i < length pinParts.
      take (length ?cs) (drop (1 + i * length ?cs) (Draws (images ?\<sigma>' ! length (images \<sigma>)))) =
        map (pinCall (images \<sigma>) (pinParts ! i)) ?cs"
    by (simp add: canvasOf_simps take_drop_concat_layers)
  show ?thesis
    apply (rule exI [of _ ?out], rule exI [of _ ?\<sigma>'], rule conjI, rule run)
    unfolding Let_def cs
    by (intro conjI perm order layers)
qed

theorem points_drawn_by_ascending_Y_witness:
  "sorts insertionSort (\<lambda>a b. Y a < Y b) \<and>
   0 < length (images southNorthHeap) \<and> 1 < length (images southNorthHeap) \<and>
   2 < length (images southNorthHeap) \<and>
   MapPinsProjection exact insertionSort (plateCarree exact) 0 [1, 2] 0 None southNorthHeap =
     Some (Whole 3, southNorthAfter) \<and>
   map (\<lambda>c. plateCarree exact c 360 180) (slice_at (coordSlices southNorthHeap) 0) =
     [\<lparr>X = 190, Y = 120\<rparr>, \<lparr>X = 170, Y = 60\<rparr>] \<and>
   slice_at (pointSlices southNorthAfter) (length (pointSlices southNorthHeap)) =
     [\<lparr>X = 170, Y = 60\<rparr>, \<lparr>X = 190, Y = 120\<rparr>] \<and>
   map (X \<circ> Max_pt \<circ> call_r) (Draws (images southNorthAfter ! 3)) = [360, 175, 195, 175, 195]"
proof -
  have s: "sorts insertionSort (\<lambda>a b. Y a < Y b)"
    by (rule insertionSort_sorts)
  have h: "0 < length (images southNorthHeap)" "\<forall>pin \<in> set [1, 2]. pin < length (images southNorthHeap)"
    by (simp_all add: southNorthHeap_simps)
  have ps: "map (\<lambda>c. plateCarree exact c 360 180) (slice_at (coordSlices southNorthHeap) 0) =
     [\<lparr>X = 190, Y = 120\<rparr>, \<lparr>X = 170, Y = 60\<rparr>]"
    by (simp add: southNorthHeap_simps plateCarree_exact)
  have cs: "slice_at (pointSlices southNorthAfter) (length (pointSlices southNorthHeap)) =
     [\<lparr>X = 170, Y = 60\<rparr>, \<lparr>X = 190, Y = 120\<rparr>]"
    by (simp add: southNorthAfter_def southNorthHeap_simps slice_at_nth)
  have ds: "map (X \<circ> Max_pt \<circ> call_r) (Draws (images southNorthAfter ! 3)) = [360, 175, 195, 175, 195]"
    by (simp add: southNorthAfter_def southNorthHeap_simps canvasOf_simps pinCall_def
        nth_append pinRect_def Rect_def Dx_def Dy_def sub64_id add64_id quo64_two is_int64_num)
  from points_drawn_by_ascending_Y [OF s h, of exact "plateCarree exact" 0 None]
  show ?thesis
    using s h southNorth_run ps cs ds by simp
qed

text \<open>
  C6. The crop resolution is idempotent: applied to the rectangle it produced, it
  yields that rectangle.

  It is not: each application subtracts and adds the margin again.
\<close>

theorem crop_not_idempotent:
  "cropBounds exact \<lparr>Bound = 10, MinWidth = 20, MinHeight = 20, PreserveRatio = False\<rparr> 360 180
     (180, 90, 180, 90) = (170, 80, 190, 100) \<and>
   cropBounds exact \<lparr>Bound = 10, MinWidth = 20, MinHeight = 20, PreserveRatio = False\<rparr> 360 180
     (cropBounds exact \<lparr>Bound = 10, MinWidth = 20, MinHeight = 20, PreserveRatio = False\<rparr> 360 180
        (180, 90, 180, 90)) = (160, 70, 200, 110)"
proof -
  let ?crop = "\<lparr>Bound = 10, MinWidth = 20, MinHeight = 20, PreserveRatio = False\<rparr>"
  have first: "cropBounds exact ?crop 360 180 (180, 90, 180, 90) = (170, 80, 190, 100)"
    by (simp add: crop_eval cong: let_weak_cong)
  have second: "cropBounds exact ?crop 360 180 (170, 80, 190, 100) = (160, 70, 200, 110)"
    by (simp add: crop_eval cong: let_weak_cong)
  show ?thesis
    by (simp only: first second simp_thms)
qed

text \<open>
  C6, as amended. With a margin of 0 the crop resolution is idempotent at every
  input whose resolved rectangle lies within the map, has its corners in order, and
  is at most one pixel short of \<open>MinWidth\<close> and of the minimum height: resolving
  that rectangle again yields it. (One pixel short is what the halving of an odd
  deficit leaves; a rectangle cut short by the right or the bottom edge of the map
  is widened again by a second application.)
\<close>

theorem crop_idempotent_when_settled:
  assumes "Bound crop = 0" and "is_int64 mapWidth" and "is_int64 mapHeight"
    and "cropBounds fl crop mapWidth mapHeight b = (minX, minY, maxX, maxY)"
    and "0 \<le> minX" "minX \<le> maxX" "maxX \<le> mapWidth"
    and "0 \<le> minY" "minY \<le> maxY" "maxY \<le> mapHeight"
    and "MinWidth crop - 1 \<le> maxX - minX"
    and "minHeight_of fl crop (maxX - minX) - 1 \<le> maxY - minY"
  shows "cropBounds fl crop mapWidth mapHeight (cropBounds fl crop mapWidth mapHeight b) =
         cropBounds fl crop mapWidth mapHeight b"
  using assms by (simp add: cropBounds_settled)

theorem crop_idempotent_when_settled_witness:
  "Bound \<lparr>Bound = 0, MinWidth = 100, MinHeight = 51, PreserveRatio = False\<rparr> = 0 \<and>
   is_int64 360 \<and> is_int64 180 \<and>
   cropBounds exact \<lparr>Bound = 0, MinWidth = 100, MinHeight = 51, PreserveRatio = False\<rparr> 360 180
     (180, 90, 180, 90) = (130, 65, 230, 115) \<and>
   (0::int) \<le> 130 \<and> (130::int) \<le> 230 \<and> (230::int) \<le> 360 \<and> (0::int) \<le> 65 \<and> (65::int) \<le> 115 \<and> (115::int) \<le> 180 \<and>
   MinWidth \<lparr>Bound = 0, MinWidth = 100, MinHeight = 51, PreserveRatio = False\<rparr> - 1 \<le> 230 - 130 \<and>
   minHeight_of exact \<lparr>Bound = 0, MinWidth = 100, MinHeight = 51, PreserveRatio = False\<rparr> (230 - 130) - 1
     \<le> 115 - 65 \<and>
   cropBounds exact \<lparr>Bound = 0, MinWidth = 100, MinHeight = 51, PreserveRatio = False\<rparr> 360 180
     (cropBounds exact \<lparr>Bound = 0, MinWidth = 100, MinHeight = 51, PreserveRatio = False\<rparr> 360 180
        (180, 90, 180, 90)) = (130, 65, 230, 115)"
proof -
  let ?crop = "\<lparr>Bound = 0, MinWidth = 100, MinHeight = 51, PreserveRatio = False\<rparr>"
  have first: "cropBounds exact ?crop 360 180 (180, 90, 180, 90) = (130, 65, 230, 115)"
    by (simp add: crop_eval cong: let_weak_cong)
  have mh: "minHeight_of exact ?crop (230 - 130) - 1 \<le> 115 - 65"
    by (simp add: minHeight_of_def)
  have ty: "is_int64 360" "is_int64 180"
    by (simp_all add: is_int64_num)
  from crop_idempotent_when_settled [of ?crop 360 180 exact "(180, 90, 180, 90)" 130 65 230 115]
  show ?thesis
    using first mh ty by simp
qed

text \<open>
  C4. \<open>Convert\<close> returns exactly \<open>x = round((longitude + 180) * mapWidth / 360)\<close>
  and \<open>y = round(mapHeight/2 - mapWidth * n / (2*pi))\<close>, computed in floating
  point.

  The source divides \<open>mapWidth\<close> by 360 first and multiplies afterwards. In
  \<open>float64\<close> the two orders differ: on a map 13 wide, at longitude 0, the quotient
  13/360 is rounded, its product with 180 falls just below 6.5, and the source
  returns x = 6, where the formula as written gives 6.5 and x = 7.
\<close>

theorem Convert_differs_from_spec_formula:
  "X (mercatorProjection_Convert binary64 \<lparr>Lat = 0, Long = 0\<rparr> 13 100) = 6 \<and>
   X (spec_Convert binary64 \<lparr>Lat = 0, Long = 0\<rparr> 13 100) = 7 \<and>
   mercatorProjection_Convert binary64 \<lparr>Lat = 0, Long = 0\<rparr> 13 100 \<noteq>
   spec_Convert binary64 \<lparr>Lat = 0, Long = 0\<rparr> 13 100"
proof -
  have code: "round64 (round64 (round64 180) * round64 (round64 13 / round64 360)) =
      7318349394477055 / 1125899906842624"
    by (simp only: round64_values)
  have spec: "round64 (round64 (round64 (round64 180) * round64 13) / round64 360) = 13 / 2"
    by (simp add: round64_values)
  have x: "X (mercatorProjection_Convert binary64 \<lparr>Lat = 0, Long = 0\<rparr> 13 100) = 6"
    "X (spec_Convert binary64 \<lparr>Lat = 0, Long = 0\<rparr> 13 100) = 7"
    by (simp_all add: mercatorProjection_Convert_def spec_Convert_def binary64_def int_of_def Let_def
        code spec wrap64_def)
  then have "X (mercatorProjection_Convert binary64 \<lparr>Lat = 0, Long = 0\<rparr> 13 100) \<noteq>
      X (spec_Convert binary64 \<lparr>Lat = 0, Long = 0\<rparr> 13 100)"
    by simp
  then have "mercatorProjection_Convert binary64 \<lparr>Lat = 0, Long = 0\<rparr> 13 100 \<noteq>
      spec_Convert binary64 \<lparr>Lat = 0, Long = 0\<rparr> 13 100"
    by (rule contrapos_nn) simp
  with x show ?thesis
    by (intro conjI)
qed

text \<open>
  C4, as amended. Whatever the floating-point operations compute, \<open>Convert\<close>
  returns a point for every input, with
  \<open>x = round((longitude + 180) * (mapWidth / 360))\<close>, the quotient first, and the
  \<open>y\<close> of the spec's formula.
\<close>

theorem Convert_formulas:
  "mercatorProjection_Convert fl c mapWidth mapHeight =
     \<lparr>X = int_of fl (math_Round fl
            (f_mul fl (f_add fl (Long c) (float64 fl 180))
                      (f_div fl (float64 fl mapWidth) (float64 fl 360)))),
      Y = Y (spec_Convert fl c mapWidth mapHeight)\<rparr>"
  by (simp add: mercatorProjection_Convert_def mercatorProjection_n_def mercatorProjection_latRad_def
      spec_Convert_def Let_def)




end
